theory Spec2Isabelle
  imports Main
begin

section \<open>Strings\<close>

text \<open>
  \<open>std::string\<close> is a sequence of bytes, here \<open>string\<close> (a list of 8-bit characters).
  \<open>starts_with s t\<close> compares \<open>t\<close> with the text at the front of \<open>s\<close>;
  \<open>str_find s t\<close> is \<open>s.find(t)\<close>: the first position at which \<open>t\<close> occurs, \<open>None\<close>
  standing for \<open>std::string::npos\<close>. The empty string is found at position 0.
\<close>

fun starts_with :: "string \<Rightarrow> string \<Rightarrow> bool" where
  "starts_with s [] = True"
| "starts_with [] (d # t) = False"
| "starts_with (c # s) (d # t) = (if c = d then starts_with s t else False)"

fun str_find :: "string \<Rightarrow> string \<Rightarrow> nat option" where
  "str_find [] t = (if t = [] then Some 0 else None)"
| "str_find (c # s) t =
     (if starts_with (c # s) t then Some 0 else map_option Suc (str_find s t))"

text \<open>\<open>contains line t\<close> is the test \<open>line.find(t) != std::string::npos\<close>.\<close>

definition contains :: "string \<Rightarrow> string \<Rightarrow> bool" where
  "contains line t = (str_find line t \<noteq> None)"

text \<open>
  \<open>boost::split(lines, s, boost::is_any_of("\n"))\<close> cuts at every line feed and keeps
  empty tokens, so the result is never empty; \<open>boost::join(lines, "\n")\<close> puts the
  separators back.
\<close>

fun split :: "string \<Rightarrow> string list" where
  "split [] = [[]]"
| "split (c # cs) =
     (if c = CHR 0x0A then [] # split cs
      else (case split cs of [] \<Rightarrow> [[c]] | l # ls \<Rightarrow> (c # l) # ls))"

fun join :: "string list \<Rightarrow> string" where
  "join [] = []"
| "join [l] = l"
| "join (l # l' # ls) = l @ CHR 0x0A # join (l' # ls)"

text \<open>
  \<open>(boost::format(t) % a).str()\<close> for a template with the one directive \<open>%1%\<close>:
  every occurrence of the directive is replaced by the argument.
\<close>

fun boost_format :: "string \<Rightarrow> string \<Rightarrow> string" where
  "boost_format [] a = []"
| "boost_format (c # cs) a =
     (if starts_with (c # cs) ''%1%'' then a @ boost_format (drop 2 cs) a
      else c # boost_format cs a)"

section \<open>Regular expressions\<close>

text \<open>
  The header \<open>private/regex.h\<close> that defines \<open>MBP_regex\<close>, \<open>MBP_regex_search\<close> and
  \<open>MBP_regex_replace\<close> is not among the sources. The expressions of the patcher are read
  in the standard (ECMAScript) grammar, over bytes: \<open>.\<close> is any character but a line
  terminator, \<open>\s\<close> is white space, \<open>[^...]\<close> a negated set, \<open>^\<close> and \<open>$\<close> the two ends
  of the subject, \<open>*\<close> (here always on a single character class) greedy repetition,
  \<open>(...)\<close> a group and \<open>|\<close> alternation.
\<close>

datatype cclass = AnyChar | Space | NoneOf "char list"

fun cmatch :: "cclass \<Rightarrow> char \<Rightarrow> bool" where
  "cmatch AnyChar c = (c \<noteq> CHR 0x0A \<and> c \<noteq> CHR 0x0D)"
| "cmatch Space c =
     (c = CHR 0x20 \<or> c = CHR 0x09 \<or> c = CHR 0x0A \<or> c = CHR 0x0B \<or> c = CHR 0x0C \<or> c = CHR 0x0D)"
| "cmatch (NoneOf ds) c = (c \<notin> set ds)"

datatype regex =
    Bol
  | Eol
  | Str string
  | One cclass
  | Many cclass
  | Cat regex regex
  | Alt regex regex
  | Grp regex

text \<open>A sequence of expressions, as they stand side by side in the pattern text.\<close>

fun seq :: "regex list \<Rightarrow> regex" where
  "seq [] = Str []"
| "seq [r] = r"
| "seq (r # rs) = Cat r (seq rs)"

fun rsize :: "regex \<Rightarrow> nat" where
  "rsize (Cat r1 r2) = Suc (rsize r1 + rsize r2)"
| "rsize (Alt r1 r2) = Suc (rsize r1 + rsize r2)"
| "rsize (Grp r) = Suc (rsize r)"
| "rsize r = Suc 0"

text \<open>
  The backtracking matcher. \<open>mt k b s\<close> matches the expressions \<open>k\<close>, one after the
  other, against the front of \<open>s\<close> and gives the length of the first match found, trying
  the longer repetition and the left alternative first; \<open>b\<close> tells whether \<open>s\<close> starts at
  the beginning of the subject.
\<close>

function mt :: "regex list \<Rightarrow> bool \<Rightarrow> string \<Rightarrow> nat option" where
  "mt [] b s = Some 0"
| "mt (Bol # k) b s = (if b then mt k b s else None)"
| "mt (Eol # k) b s = (if s = [] then mt k b s else None)"
| "mt (Str t # k) b s =
     (if starts_with s t
      then map_option ((+) (length t)) (mt k (b \<and> t = []) (drop (length t) s))
      else None)"
| "mt (One c # k) b [] = None"
| "mt (One c # k) b (x # xs) =
     (if cmatch c x then map_option Suc (mt k False xs) else None)"
| "mt (Many c # k) b [] = mt k b []"
| "mt (Many c # k) b (x # xs) =
     (if cmatch c x
      then (case mt (Many c # k) False xs of
              Some n \<Rightarrow> Some (Suc n)
            | None \<Rightarrow> mt k b (x # xs))
      else mt k b (x # xs))"
| "mt (Cat r1 r2 # k) b s = mt (r1 # r2 # k) b s"
| "mt (Alt r1 r2 # k) b s =
     (case mt (r1 # k) b s of Some n \<Rightarrow> Some n | None \<Rightarrow> mt (r2 # k) b s)"
| "mt (Grp r # k) b s = mt (r # k) b s"
  by pat_completeness auto
termination
  by (relation "measures [\<lambda>(k, b, s). sum_list (map rsize k), \<lambda>(k, b, s). length s]") auto

text \<open>
  The leftmost match: its offset and its length. \<open>MBP_regex_search(line, re)\<close> tells
  whether there is one.
\<close>

fun first_match :: "regex \<Rightarrow> bool \<Rightarrow> string \<Rightarrow> (nat \<times> nat) option" where
  "first_match r b [] = (case mt [r] b [] of None \<Rightarrow> None | Some n \<Rightarrow> Some (0, n))"
| "first_match r b (c # cs) =
     (case mt [r] b (c # cs) of
        None \<Rightarrow> map_option (\<lambda>(k, n). (Suc k, n)) (first_match r False cs)
      | Some n \<Rightarrow> Some (0, n))"

definition regex_search :: "string \<Rightarrow> regex \<Rightarrow> bool" where
  "regex_search line re = (first_match re True line \<noteq> None)"

text \<open>
  \<open>MBP_regex_replace(s, re, fmt)\<close>, read like the search as the standard library's
  \<open>regex_replace\<close>: it returns a new string, \<open>s\<close> with the match replaced by the format
  text, and leaves \<open>s\<close> itself as it is. In the standard format syntax only \<open>$\<close> refers
  to the match, so a format without \<open>$\<close> stands for itself. The one expression the patcher
  replaces starts with \<open>^\<close>, so the leftmost match is the only one.
\<close>

definition regex_replace :: "string \<Rightarrow> regex \<Rightarrow> string \<Rightarrow> string" where
  "regex_replace s re fmt =
     (case first_match re True s of
        None \<Rightarrow> s
      | Some (k, n) \<Rightarrow> take k s @ fmt @ drop (k + n) s)"

section \<open>The patcher's constants\<close>

definition Mount :: string where
  \<open>Mount = ''run_program("/update-binary-tool", "mount", "%1%"};''\<close>

definition Unmount :: string where
  \<open>Unmount = ''run_program("/update-binary-tool", "unmount", "%1%"};''\<close>

definition Format :: string where
  \<open>Format = ''run_program("/update-binary-tool", "format", "%1%"};''\<close>

definition System :: string where
  "System = ''system''"

definition Cache :: string where
  "Cache = ''cache''"

definition Data :: string where
  "Data = ''data''"

text \<open>
  The device descriptor: \<open>device->partition(name)\<close> gives the raw path of a logical
  partition, or the empty string. The patch information answers \<open>deviceCheck(key)\<close> for
  the key it derives from the file name.
\<close>

record Device =
  partition_dev :: "string \<Rightarrow> string"

record PatchInfo =
  keyFromFilename :: "string \<Rightarrow> string"
  deviceCheck :: "string \<Rightarrow> bool"

record FileInfo =
  device :: Device
  patchInfo :: PatchInfo
  filename :: string

text \<open>
  Modelled from the spec: the class \<open>PatcherError\<close> is declared outside the sources; its
  default-constructed value is the one that reports no error.
\<close>

datatype PatcherError = NoError | Failed nat

definition PatcherError_default :: PatcherError where
  "PatcherError_default = NoError"

section \<open>Line containers\<close>

text \<open>
  \<open>lines->erase(it)\<close> and \<open>lines->insert(it, x)\<close> on a \<open>std::vector\<close>, the iterator
  being the index of the element it points to; both return the iterator at the same
  index.
\<close>

definition erase :: "'a list \<Rightarrow> nat \<Rightarrow> 'a list" where
  "erase xs it = take it xs @ drop (Suc it) xs"

definition insert_at :: "'a list \<Rightarrow> nat \<Rightarrow> 'a \<Rightarrow> 'a list" where
  "insert_at xs it x = take it xs @ x # drop it xs"

section \<open>Partition classification\<close>

text \<open>
  The three tests every rewriter computes for a qualifying line, from the line and the
  device's path for the partition.
\<close>

definition isSystem :: "string \<Rightarrow> string \<Rightarrow> bool" where
  "isSystem line pSystem =
     (contains line System \<or> (pSystem \<noteq> [] \<and> contains line pSystem))"

definition isCache :: "string \<Rightarrow> string \<Rightarrow> bool" where
  "isCache line pCache =
     (contains line Cache \<or> (pCache \<noteq> [] \<and> contains line pCache))"

definition isData :: "string \<Rightarrow> string \<Rightarrow> bool" where
  "isData line pData =
     (contains line Data \<or> contains line ''userdata''
      \<or> (pData \<noteq> [] \<and> contains line pData))"

section \<open>Assertion stripping\<close>

text \<open>\<open>^\s*assert\s*\(.*getprop\s*\(.*(ro.product.device|ro.build.product)\<close>\<close>

definition reLine :: regex where
  "reLine = seq [Bol, Many Space, Str ''assert'', Many Space, Str ''('', Many AnyChar,
     Str ''getprop'', Many Space, Str ''('', Many AnyChar,
     Grp (Alt (seq [Str ''ro'', One AnyChar, Str ''product'', One AnyChar, Str ''device''])
              (seq [Str ''ro'', One AnyChar, Str ''build'', One AnyChar, Str ''product'']))]"

text \<open>\<open>^(\s*assert\s*\()\<close>\<close>

definition reAssert :: regex where
  "reAssert = seq [Bol, Grp (seq [Many Space, Str ''assert'', Many Space, Str ''(''])]"

text \<open>The format string of the call, \<open>\1"true" == "true" || \<close>.\<close>

definition assertFormat :: string where
  \<open>assertFormat = CHR 0x5C # ''1"true" == "true" || ''\<close>

text \<open>
  The body of the loop over the lines, and the loop. The body calls \<open>MBP_regex_replace\<close>
  as a statement: the string the call returns is not assigned to \<open>line\<close> (nor to
  anything else), so the line stays as it is.
\<close>

definition stripLine :: "string \<Rightarrow> string" where
  "stripLine line =
     (if regex_search line reLine
      then (let dropped = regex_replace line reAssert assertFormat in line)
      else line)"

definition removeDeviceChecks :: "string list \<Rightarrow> string list" where
  "removeDeviceChecks lines = map stripLine lines"

section \<open>Mount lines\<close>

text \<open>\<open>^\s*mount\s*\(.*$\<close>\<close>

definition mount_re1 :: regex where
  "mount_re1 = seq [Bol, Many Space, Str ''mount'', Many Space, Str ''('', Many AnyChar, Eol]"

text \<open>\<open>^\s*run_program\s*\(\s*"[^"]*busybox"\s*,\s*"mount".*$\<close>\<close>

definition mount_re2 :: regex where
  \<open>mount_re2 = seq [Bol, Many Space, Str ''run_program'', Many Space, Str ''('', Many Space,
     Str ''"'', Many (NoneOf ''"''), Str ''busybox"'', Many Space, Str '','', Many Space,
     Str ''"mount"'', Many AnyChar, Eol]\<close>

text \<open>\<open>^\s*run_program\s*\(\s*"[^",]*/mount".*$\<close>\<close>

definition mount_re3 :: regex where
  \<open>mount_re3 = seq [Bol, Many Space, Str ''run_program'', Many Space, Str ''('', Many Space,
     Str ''"'', Many (NoneOf ''",''), Str ''/mount"'', Many AnyChar, Eol]\<close>

definition isMountLine :: "string \<Rightarrow> bool" where
  "isMountLine line =
     (regex_search line mount_re1 \<or> regex_search line mount_re2 \<or> regex_search line mount_re3)"

function replaceMountLines_loop ::
  "string \<Rightarrow> string \<Rightarrow> string \<Rightarrow> nat \<Rightarrow> string list \<Rightarrow> string list" where
  "replaceMountLines_loop pSystem pCache pData it lines =
     (if it < length lines then
        (let line = lines ! it in
         if isMountLine line then
           if isSystem line pSystem then
             replaceMountLines_loop pSystem pCache pData (Suc it)
               (insert_at (erase lines it) it (boost_format Mount ''/system''))
           else if isCache line pCache then
             replaceMountLines_loop pSystem pCache pData (Suc it)
               (insert_at (erase lines it) it (boost_format Mount ''/cache''))
           else if isData line pData then
             replaceMountLines_loop pSystem pCache pData (Suc it)
               (insert_at (erase lines it) it (boost_format Mount ''/data''))
           else replaceMountLines_loop pSystem pCache pData (Suc it) lines
         else replaceMountLines_loop pSystem pCache pData (Suc it) lines)
      else lines)"
  by pat_completeness auto
termination
  by (relation "measure (\<lambda>(pSystem, pCache, pData, it, lines). length lines - it)")
     (auto simp: erase_def insert_at_def)

definition replaceMountLines :: "string list \<Rightarrow> Device \<Rightarrow> string list" where
  "replaceMountLines lines dev =
     replaceMountLines_loop (partition_dev dev System) (partition_dev dev Cache)
       (partition_dev dev Data) 0 lines"

section \<open>Unmount lines\<close>

text \<open>\<open>^\s*unmount\s*\(.*$\<close>\<close>

definition unmount_re1 :: regex where
  "unmount_re1 = seq [Bol, Many Space, Str ''unmount'', Many Space, Str ''('', Many AnyChar, Eol]"

text \<open>\<open>^\s*run_program\s*\(\s*"[^"]*busybox"\s*,\s*"umount".*$\<close>\<close>

definition unmount_re2 :: regex where
  \<open>unmount_re2 = seq [Bol, Many Space, Str ''run_program'', Many Space, Str ''('', Many Space,
     Str ''"'', Many (NoneOf ''"''), Str ''busybox"'', Many Space, Str '','', Many Space,
     Str ''"umount"'', Many AnyChar, Eol]\<close>

definition isUnmountLine :: "string \<Rightarrow> bool" where
  "isUnmountLine line = (regex_search line unmount_re1 \<or> regex_search line unmount_re2)"

function replaceUnmountLines_loop ::
  "string \<Rightarrow> string \<Rightarrow> string \<Rightarrow> nat \<Rightarrow> string list \<Rightarrow> string list" where
  "replaceUnmountLines_loop pSystem pCache pData it lines =
     (if it < length lines then
        (let line = lines ! it in
         if isUnmountLine line then
           if isSystem line pSystem then
             replaceUnmountLines_loop pSystem pCache pData (Suc it)
               (insert_at (erase lines it) it (boost_format Unmount ''/system''))
           else if isCache line pCache then
             replaceUnmountLines_loop pSystem pCache pData (Suc it)
               (insert_at (erase lines it) it (boost_format Unmount ''/cache''))
           else if isData line pData then
             replaceUnmountLines_loop pSystem pCache pData (Suc it)
               (insert_at (erase lines it) it (boost_format Unmount ''/data''))
           else replaceUnmountLines_loop pSystem pCache pData (Suc it) lines
         else replaceUnmountLines_loop pSystem pCache pData (Suc it) lines)
      else lines)"
  by pat_completeness auto
termination
  by (relation "measure (\<lambda>(pSystem, pCache, pData, it, lines). length lines - it)")
     (auto simp: erase_def insert_at_def)

definition replaceUnmountLines :: "string list \<Rightarrow> Device \<Rightarrow> string list" where
  "replaceUnmountLines lines dev =
     replaceUnmountLines_loop (partition_dev dev System) (partition_dev dev Cache)
       (partition_dev dev Data) 0 lines"

section \<open>Format lines\<close>

text \<open>\<open>^\s*format\s*\(.*$\<close>\<close>

definition format_re1 :: regex where
  "format_re1 = seq [Bol, Many Space, Str ''format'', Many Space, Str ''('', Many AnyChar, Eol]"

text \<open>\<open>delete_recursive\s*\([^\)]*"/system"\<close>\<close>

definition format_re2 :: regex where
  \<open>format_re2 = seq [Str ''delete_recursive'', Many Space, Str ''('', Many (NoneOf '')''),
     Str ''"/system"'']\<close>

text \<open>\<open>delete_recursive\s*\([^\)]*"/cache"\<close>\<close>

definition format_re3 :: regex where
  \<open>format_re3 = seq [Str ''delete_recursive'', Many Space, Str ''('', Many (NoneOf '')''),
     Str ''"/cache"'']\<close>

text \<open>\<open>^\s*run_program\s*\(\s*"[^",]*/format.sh".*$\<close>\<close>

definition format_re4 :: regex where
  \<open>format_re4 = seq [Bol, Many Space, Str ''run_program'', Many Space, Str ''('', Many Space,
     Str ''"'', Many (NoneOf ''",''), Str ''/format'', One AnyChar, Str ''sh"'',
     Many AnyChar, Eol]\<close>

function replaceFormatLines_loop ::
  "string \<Rightarrow> string \<Rightarrow> string \<Rightarrow> nat \<Rightarrow> string list \<Rightarrow> string list" where
  "replaceFormatLines_loop pSystem pCache pData it lines =
     (if it < length lines then
        (let line = lines ! it in
         if regex_search line format_re1 then
           if isSystem line pSystem then
             replaceFormatLines_loop pSystem pCache pData (Suc it)
               (insert_at (erase lines it) it (boost_format Format ''/system''))
           else if isCache line pCache then
             replaceFormatLines_loop pSystem pCache pData (Suc it)
               (insert_at (erase lines it) it (boost_format Format ''/cache''))
           else if isData line pData then
             replaceFormatLines_loop pSystem pCache pData (Suc it)
               (insert_at (erase lines it) it (boost_format Format ''/data''))
           else replaceFormatLines_loop pSystem pCache pData (Suc it) lines
         else if regex_search line format_re2 then
           replaceFormatLines_loop pSystem pCache pData (Suc it)
             (insert_at (erase lines it) it (boost_format Format ''/system''))
         else if regex_search line format_re3 then
           replaceFormatLines_loop pSystem pCache pData (Suc it)
             (insert_at (erase lines it) it (boost_format Format ''/cache''))
         else if regex_search line format_re4 then
           replaceFormatLines_loop pSystem pCache pData (Suc it)
             (insert_at (erase lines it) it (boost_format Format ''/data''))
         else replaceFormatLines_loop pSystem pCache pData (Suc it) lines)
      else lines)"
  by pat_completeness auto
termination
  by (relation "measure (\<lambda>(pSystem, pCache, pData, it, lines). length lines - it)")
     (auto simp: erase_def insert_at_def)

definition replaceFormatLines :: "string list \<Rightarrow> Device \<Rightarrow> string list" where
  "replaceFormatLines lines dev =
     replaceFormatLines_loop (partition_dev dev System) (partition_dev dev Cache)
       (partition_dev dev Data) 0 lines"

section \<open>The patcher\<close>

text \<open>
  \<open>patchLines\<close> is the body of \<open>patchFiles\<close> between \<open>boost::split\<close> and
  \<open>boost::join\<close>; \<open>patchFiles info contents\<close> is the text written back to the
  updater-script for the text read from it (the function itself always returns true).
\<close>

definition patchLines :: "FileInfo \<Rightarrow> string list \<Rightarrow> string list" where
  "patchLines info lines0 =
     (let lines1 = replaceMountLines lines0 (device info);
          lines2 = replaceUnmountLines lines1 (device info);
          lines3 = replaceFormatLines lines2 (device info);
          key = keyFromFilename (patchInfo info) (filename info)
      in if \<not> deviceCheck (patchInfo info) key then removeDeviceChecks lines3 else lines3)"

definition patchFiles :: "FileInfo \<Rightarrow> string \<Rightarrow> string" where
  "patchFiles info contents = join (patchLines info (split contents))"

text \<open>\<open>StandardPatcher::error()\<close> for a patcher built on \<open>info\<close>.\<close>

definition error :: "FileInfo \<Rightarrow> PatcherError" where
  "error info = PatcherError_default"

section \<open>What each pass does to one line\<close>

text \<open>
  The line a pass leaves at the position of \<open>line\<close>: the body of its loop, read as a
  function of the line it visits.
\<close>

definition mountLine :: "string \<Rightarrow> string \<Rightarrow> string \<Rightarrow> string \<Rightarrow> string" where
  "mountLine pSystem pCache pData line =
     (if isMountLine line then
        if isSystem line pSystem then boost_format Mount ''/system''
        else if isCache line pCache then boost_format Mount ''/cache''
        else if isData line pData then boost_format Mount ''/data''
        else line
      else line)"

definition unmountLine :: "string \<Rightarrow> string \<Rightarrow> string \<Rightarrow> string \<Rightarrow> string" where
  "unmountLine pSystem pCache pData line =
     (if isUnmountLine line then
        if isSystem line pSystem then boost_format Unmount ''/system''
        else if isCache line pCache then boost_format Unmount ''/cache''
        else if isData line pData then boost_format Unmount ''/data''
        else line
      else line)"

definition formatLine :: "string \<Rightarrow> string \<Rightarrow> string \<Rightarrow> string \<Rightarrow> string" where
  "formatLine pSystem pCache pData line =
     (if regex_search line format_re1 then
        if isSystem line pSystem then boost_format Format ''/system''
        else if isCache line pCache then boost_format Format ''/cache''
        else if isData line pData then boost_format Format ''/data''
        else line
      else if regex_search line format_re2 then boost_format Format ''/system''
      else if regex_search line format_re3 then boost_format Format ''/cache''
      else if regex_search line format_re4 then boost_format Format ''/data''
      else line)"

text \<open>The three statement rewriters in the order \<open>patchFiles\<close> runs them.\<close>

definition rewriteStatements :: "string list \<Rightarrow> Device \<Rightarrow> string list" where
  "rewriteStatements lines dev =
     replaceFormatLines (replaceUnmountLines (replaceMountLines lines dev) dev) dev"

section \<open>What an expression matches\<close>



text \<open>The nine lines the statement rewriters can put in place of a line.\<close>

definition replacementLines :: "string list" where
  "replacementLines =
     [boost_format Mount ''/system'', boost_format Mount ''/cache'', boost_format Mount ''/data'',
      boost_format Unmount ''/system'', boost_format Unmount ''/cache'',
      boost_format Unmount ''/data'',
      boost_format Format ''/system'', boost_format Format ''/cache'',
      boost_format Format ''/data'']"

text \<open>The line of the spec's unmount example.\<close>

definition busyboxUmountCache :: string where
  \<open>busyboxUmountCache = ''run_program("/sbin/busybox", "umount", "/cache");''\<close>

section \<open>Sample inputs\<close>

text \<open>
  A device with no partition path, one whose System path is \<open>/dev/block/p1\<close>, one whose
  System path is \<open>/sbin\<close>; a patch target whose device check is kept and one whose
  device check is removed.
\<close>

definition noPaths :: "string \<Rightarrow> string" where
  "noPaths name = []"

definition systemOnP1 :: "string \<Rightarrow> string" where
  "systemOnP1 name = (if name = ''system'' then ''/dev/block/p1'' else [])"

definition systemOnSbin :: "string \<Rightarrow> string" where
  "systemOnSbin name = (if name = ''system'' then ''/sbin'' else [])"

definition unmappedDevice :: Device where
  "unmappedDevice = \<lparr>partition_dev = noPaths\<rparr>"

definition p1Device :: Device where
  "p1Device = \<lparr>partition_dev = systemOnP1\<rparr>"

definition sbinDevice :: Device where
  "sbinDevice = \<lparr>partition_dev = systemOnSbin\<rparr>"

definition withCheck :: "string \<Rightarrow> bool" where
  "withCheck key = True"

definition withoutCheck :: "string \<Rightarrow> bool" where
  "withoutCheck key = False"

definition keepInfo :: "Device \<Rightarrow> FileInfo" where
  "keepInfo dev =
     \<lparr>device = dev, patchInfo = \<lparr>keyFromFilename = id, deviceCheck = withCheck\<rparr>,
      filename = ''rom.zip''\<rparr>"

definition stripInfo :: "Device \<Rightarrow> FileInfo" where
  "stripInfo dev =
     \<lparr>device = dev, patchInfo = \<lparr>keyFromFilename = id, deviceCheck = withoutCheck\<rparr>,
      filename = ''rom.zip''\<rparr>"

section \<open>Properties\<close>

text \<open>
  The equations of the three loops unfold without end, so they are used by hand
  (the loops are shown to be maps below).
\<close>

declare replaceMountLines_loop.simps [simp del]
declare replaceUnmountLines_loop.simps [simp del]
declare replaceFormatLines_loop.simps [simp del]

subsection \<open>Vectors\<close>

lemma replace_at: "it < length xs \<Longrightarrow> insert_at (erase xs it) it x = xs[it := x]"
  by (simp add: insert_at_def erase_def upd_conv_take_nth_drop min_def)

lemma take_map_drop_step:
  assumes "it < length xs"
  shows "take (Suc it) (xs[it := f (xs ! it)]) @ map f (drop (Suc it) (xs[it := f (xs ! it)]))
         = take it xs @ map f (drop it xs)"
proof -
  have "drop it xs = xs ! it # drop (Suc it) xs"
    using assms by (simp add: Cons_nth_drop_Suc)
  moreover have "take (Suc it) (xs[it := f (xs ! it)]) = take it xs @ [f (xs ! it)]"
    using assms by (simp add: take_Suc_conv_app_nth)
  ultimately show ?thesis by simp
qed

subsection \<open>The loops are maps\<close>

lemma replaceMountLines_loop_map:
  "replaceMountLines_loop pS pC pD it lines
   = take it lines @ map (mountLine pS pC pD) (drop it lines)"
proof (induction pS pC pD it lines rule: replaceMountLines_loop.induct)
  case (1 pS pC pD it lines)
  show ?case
  proof (cases "it < length lines")
    case False
    then show ?thesis by (subst replaceMountLines_loop.simps) simp
  next
    case True
    let ?y = "mountLine pS pC pD (lines ! it)"
    have "replaceMountLines_loop pS pC pD it lines
          = replaceMountLines_loop pS pC pD (Suc it) (lines[it := ?y])"
      using True by (subst replaceMountLines_loop.simps) (simp add: Let_def mountLine_def replace_at)
    also have "\<dots> = take (Suc it) (lines[it := ?y])
                 @ map (mountLine pS pC pD) (drop (Suc it) (lines[it := ?y]))"
      using "1.IH" True unfolding mountLine_def by (auto simp: replace_at)
    also have "\<dots> = take it lines @ map (mountLine pS pC pD) (drop it lines)"
      using True by (rule take_map_drop_step)
    finally show ?thesis .
  qed
qed

lemma replaceUnmountLines_loop_map:
  "replaceUnmountLines_loop pS pC pD it lines
   = take it lines @ map (unmountLine pS pC pD) (drop it lines)"
proof (induction pS pC pD it lines rule: replaceUnmountLines_loop.induct)
  case (1 pS pC pD it lines)
  show ?case
  proof (cases "it < length lines")
    case False
    then show ?thesis by (subst replaceUnmountLines_loop.simps) simp
  next
    case True
    let ?y = "unmountLine pS pC pD (lines ! it)"
    have "replaceUnmountLines_loop pS pC pD it lines
          = replaceUnmountLines_loop pS pC pD (Suc it) (lines[it := ?y])"
      using True
      by (subst replaceUnmountLines_loop.simps) (simp add: Let_def unmountLine_def replace_at)
    also have "\<dots> = take (Suc it) (lines[it := ?y])
                 @ map (unmountLine pS pC pD) (drop (Suc it) (lines[it := ?y]))"
      using "1.IH" True unfolding unmountLine_def by (auto simp: replace_at)
    also have "\<dots> = take it lines @ map (unmountLine pS pC pD) (drop it lines)"
      using True by (rule take_map_drop_step)
    finally show ?thesis .
  qed
qed

lemma replaceFormatLines_loop_map:
  "replaceFormatLines_loop pS pC pD it lines
   = take it lines @ map (formatLine pS pC pD) (drop it lines)"
proof (induction pS pC pD it lines rule: replaceFormatLines_loop.induct)
  case (1 pS pC pD it lines)
  show ?case
  proof (cases "it < length lines")
    case False
    then show ?thesis by (subst replaceFormatLines_loop.simps) simp
  next
    case True
    let ?y = "formatLine pS pC pD (lines ! it)"
    have "replaceFormatLines_loop pS pC pD it lines
          = replaceFormatLines_loop pS pC pD (Suc it) (lines[it := ?y])"
      using True
      by (subst replaceFormatLines_loop.simps) (simp add: Let_def formatLine_def replace_at)
    also have "\<dots> = take (Suc it) (lines[it := ?y])
                 @ map (formatLine pS pC pD) (drop (Suc it) (lines[it := ?y]))"
      using "1.IH" True unfolding formatLine_def by (auto simp: replace_at)
    also have "\<dots> = take it lines @ map (formatLine pS pC pD) (drop it lines)"
      using True by (rule take_map_drop_step)
    finally show ?thesis .
  qed
qed

lemma replaceMountLines_map:
  "replaceMountLines lines dev
   = map (mountLine (partition_dev dev System) (partition_dev dev Cache) (partition_dev dev Data)) lines"
  by (simp add: replaceMountLines_def replaceMountLines_loop_map)

lemma replaceUnmountLines_map:
  "replaceUnmountLines lines dev
   = map (unmountLine (partition_dev dev System) (partition_dev dev Cache) (partition_dev dev Data)) lines"
  by (simp add: replaceUnmountLines_def replaceUnmountLines_loop_map)

lemma replaceFormatLines_map:
  "replaceFormatLines lines dev
   = map (formatLine (partition_dev dev System) (partition_dev dev Cache) (partition_dev dev Data)) lines"
  by (simp add: replaceFormatLines_def replaceFormatLines_loop_map)

lemmas pass_map = replaceMountLines_map replaceUnmountLines_map replaceFormatLines_map

subsection \<open>Splitting and joining\<close>

lemma split_not_Nil: "split s \<noteq> []"
  by (induction s) (auto split: list.splits)

lemma join_Cons: "ls \<noteq> [] \<Longrightarrow> join (l # ls) = l @ CHR 0x0A # join ls"
  by (cases ls) simp_all

lemma join_split: "join (split s) = s"
proof (induction s)
  case Nil
  show ?case by simp
next
  case (Cons c cs)
  show ?case
  proof (cases "c = CHR 0x0A")
    case True
    then show ?thesis using Cons by (simp add: join_Cons split_not_Nil)
  next
    case False
    obtain l ls where sp: "split cs = l # ls"
      using split_not_Nil [of cs] by (cases "split cs") auto
    show ?thesis
    proof (cases ls)
      case Nil
      then show ?thesis using Cons sp False by simp
    next
      case (Cons l' ls')
      then show ?thesis using \<open>join (split cs) = cs\<close> sp False by simp
    qed
  qed
qed

lemma split_no_newline: "CHR 0x0A \<notin> set l \<Longrightarrow> split l = [l]"
  by (induction l) auto

lemma split_append_newline:
  "CHR 0x0A \<notin> set l \<Longrightarrow> split (l @ CHR 0x0A # r) = l # split r"
  by (induction l) auto

lemma split_join:
  "ls \<noteq> [] \<Longrightarrow> \<forall>l\<in>set ls. CHR 0x0A \<notin> set l \<Longrightarrow> split (join ls) = ls"
proof (induction ls rule: join.induct)
  case 1
  then show ?case by simp
next
  case (2 l)
  then show ?case by (simp add: split_no_newline)
next
  case (3 l l' ls)
  then show ?case by (simp add: split_append_newline)
qed

lemma split_lines_no_newline: "l \<in> set (split s) \<Longrightarrow> CHR 0x0A \<notin> set l"
proof (induction s arbitrary: l)
  case Nil
  then show ?case by simp
next
  case (Cons c cs)
  then show ?case
    by (cases "split cs") (auto split: if_splits)
qed

subsection \<open>The replacement lines\<close>

lemma Mount_lines:
  \<open>boost_format Mount ''/system'' = ''run_program("/update-binary-tool", "mount", "/system"};''\<close>
  \<open>boost_format Mount ''/cache'' = ''run_program("/update-binary-tool", "mount", "/cache"};''\<close>
  \<open>boost_format Mount ''/data'' = ''run_program("/update-binary-tool", "mount", "/data"};''\<close>
  by (simp_all add: Mount_def)

lemma Unmount_lines:
  \<open>boost_format Unmount ''/system'' = ''run_program("/update-binary-tool", "unmount", "/system"};''\<close>
  \<open>boost_format Unmount ''/cache'' = ''run_program("/update-binary-tool", "unmount", "/cache"};''\<close>
  \<open>boost_format Unmount ''/data'' = ''run_program("/update-binary-tool", "unmount", "/data"};''\<close>
  by (simp_all add: Unmount_def)

lemma Format_lines:
  \<open>boost_format Format ''/system'' = ''run_program("/update-binary-tool", "format", "/system"};''\<close>
  \<open>boost_format Format ''/cache'' = ''run_program("/update-binary-tool", "format", "/cache"};''\<close>
  \<open>boost_format Format ''/data'' = ''run_program("/update-binary-tool", "format", "/data"};''\<close>
  by (simp_all add: Format_def)

lemmas template_lines = Mount_lines Unmount_lines Format_lines

lemma mountLine_no_newline:
  "CHR 0x0A \<notin> set l \<Longrightarrow> CHR 0x0A \<notin> set (mountLine pS pC pD l)"
  by (simp add: mountLine_def template_lines)

lemma unmountLine_no_newline:
  "CHR 0x0A \<notin> set l \<Longrightarrow> CHR 0x0A \<notin> set (unmountLine pS pC pD l)"
  by (simp add: unmountLine_def template_lines)

lemma formatLine_no_newline:
  "CHR 0x0A \<notin> set l \<Longrightarrow> CHR 0x0A \<notin> set (formatLine pS pC pD l)"
  by (simp add: formatLine_def template_lines)

lemma stripLine_id: "stripLine line = line"
  by (simp add: stripLine_def Let_def)

lemma removeDeviceChecks_id: "removeDeviceChecks lines = lines"
  unfolding removeDeviceChecks_def by (rule map_idI) (rule stripLine_id)

lemma stripLine_no_newline:
  "CHR 0x0A \<notin> set l \<Longrightarrow> CHR 0x0A \<notin> set (stripLine l)"
  by (simp add: stripLine_id)

lemma patchLines_no_newline:
  assumes "\<forall>l\<in>set lines. CHR 0x0A \<notin> set l"
  shows "\<forall>l\<in>set (patchLines info lines). CHR 0x0A \<notin> set l"
  using assms
  by (auto simp: patchLines_def Let_def pass_map removeDeviceChecks_def
      intro!: mountLine_no_newline unmountLine_no_newline formatLine_no_newline stripLine_no_newline)

lemma length_patchLines: "length (patchLines info lines) = length lines"
  by (simp add: patchLines_def Let_def pass_map removeDeviceChecks_def)

text \<open>
  C8. Every pass keeps the number of lines, and so do the passes in a row and the whole
  rewrite of a text: the text written back splits into as many lines as the text read.
  A substitution, \<open>erase\<close> followed by \<open>insert\<close> at the same iterator, puts the new
  line at the position of the old one and leaves every other position as it was.
\<close>

theorem line_count_preserved:
  "length (replaceMountLines lines dev) = length lines
   \<and> length (replaceUnmountLines lines dev) = length lines
   \<and> length (replaceFormatLines lines dev) = length lines
   \<and> length (removeDeviceChecks lines) = length lines
   \<and> length (patchLines info lines) = length lines
   \<and> length (split (patchFiles info contents)) = length (split contents)
   \<and> (\<forall>it x. it < length lines \<longrightarrow>
         length (insert_at (erase lines it) it x) = length lines
         \<and> insert_at (erase lines it) it x ! it = x
         \<and> (\<forall>j. j < length lines \<and> j \<noteq> it \<longrightarrow> insert_at (erase lines it) it x ! j = lines ! j))"
proof -
  have "patchLines info (split contents) \<noteq> []"
    using length_patchLines [of info "split contents"] split_not_Nil [of contents] by auto
  moreover have "\<forall>l\<in>set (patchLines info (split contents)). CHR 0x0A \<notin> set l"
    by (rule patchLines_no_newline) (simp add: split_lines_no_newline)
  ultimately have "split (patchFiles info contents) = patchLines info (split contents)"
    unfolding patchFiles_def by (rule split_join)
  then have "length (split (patchFiles info contents)) = length (split contents)"
    by (simp add: length_patchLines)
  then show ?thesis
    by (simp add: pass_map removeDeviceChecks_def length_patchLines replace_at)
qed

subsection \<open>The matcher finds exactly the matches\<close>















subsection \<open>Searching\<close>

lemma first_match_None_iff:
  "first_match r b s = None \<longleftrightarrow> (\<forall>a s'. s = a @ s' \<longrightarrow> mt [r] (b \<and> a = []) s' = None)"
proof (induction s arbitrary: b)
  case Nil
  show ?case by (auto split: option.splits)
next
  case (Cons c cs)
  have "first_match r b (c # cs) = None
        \<longleftrightarrow> mt [r] b (c # cs) = None \<and> first_match r False cs = None"
    by (auto split: option.splits)
  also have "\<dots> \<longleftrightarrow> mt [r] b (c # cs) = None \<and> (\<forall>a s'. cs = a @ s' \<longrightarrow> mt [r] False s' = None)"
    by (simp add: Cons.IH)
  also have "\<dots> \<longleftrightarrow> (\<forall>a s'. c # cs = a @ s' \<longrightarrow> mt [r] (b \<and> a = []) s' = None)"
  proof
    assume h: "mt [r] b (c # cs) = None \<and> (\<forall>a s'. cs = a @ s' \<longrightarrow> mt [r] False s' = None)"
    show "\<forall>a s'. c # cs = a @ s' \<longrightarrow> mt [r] (b \<and> a = []) s' = None"
    proof (intro allI impI)
      fix a s'
      assume "c # cs = a @ s'"
      then show "mt [r] (b \<and> a = []) s' = None"
        using h by (cases a) auto
    qed
  next
    assume h: "\<forall>a s'. c # cs = a @ s' \<longrightarrow> mt [r] (b \<and> a = []) s' = None"
    have "mt [r] b (c # cs) = None"
      using h [rule_format, of "[]" "c # cs"] by simp
    moreover have "mt [r] False s' = None" if "cs = a @ s'" for a s'
      using h [rule_format, of "c # a" s'] that by simp
    ultimately show "mt [r] b (c # cs) = None \<and> (\<forall>a s'. cs = a @ s' \<longrightarrow> mt [r] False s' = None)"
      by blast
  qed
  finally show ?case .
qed




lemma first_match_anchored:
  "first_match (Cat Bol r) True line
   = (case mt [Cat Bol r] True line of None \<Rightarrow> None | Some n \<Rightarrow> Some (0, n))"
proof (cases line)
  case Nil
  then show ?thesis by simp
next
  case (Cons c cs)
  have "first_match (Cat Bol r) False cs = None"
    unfolding first_match_None_iff by simp
  then show ?thesis
    unfolding Cons by (simp split: option.splits)
qed

subsection \<open>Substrings\<close>



lemmas sample_defs = noPaths_def systemOnP1_def systemOnSbin_def unmappedDevice_def p1Device_def
  sbinDevice_def withCheck_def withoutCheck_def keepInfo_def stripInfo_def

text \<open>Evaluating a search: an expression that starts with \<open>^\<close> is tried at the start only.\<close>

lemma regex_search_Bol: "regex_search line (Cat Bol r) = (mt [Cat Bol r] True line \<noteq> None)"
  by (simp add: regex_search_def first_match_anchored split: option.splits)

lemma regex_search_Str:
  "regex_search line (Cat (Str t) r) = (first_match (Cat (Str t) r) True line \<noteq> None)"
  by (simp add: regex_search_def)

lemmas pattern_defs = isMountLine_def isUnmountLine_def regex_search_Bol regex_search_Str
  mount_re1_def mount_re2_def mount_re3_def unmount_re1_def unmount_re2_def format_re1_def
  format_re2_def format_re3_def format_re4_def reLine_def reAssert_def

lemmas classifier_defs = isSystem_def isCache_def isData_def contains_def System_def Cache_def
  Data_def

text \<open>
  C1, as the code has it. On a mount line, an unmount line and a line that begins with
  \<open>format(\<close>, which are the lines a pass hands to the classifier, the partition is chosen
  in the order System, Cache, Data, the first test that holds winning. In particular such
  a line with both \<open>system\<close> and \<open>data\<close> in it is replaced by the helper call for
  \<open>/system\<close>, which is not the one for \<open>/data\<close>. The other three rules of the format
  pass name their partition themselves and do not classify.
\<close>

theorem classification_precedence:
  fixes lines :: "string list" and dev :: Device
  defines "pSystem \<equiv> partition_dev dev System"
    and "pCache \<equiv> partition_dev dev Cache"
    and "pData \<equiv> partition_dev dev Data"
  assumes "i < length lines"
  shows "(isMountLine (lines ! i) \<longrightarrow>
           (isSystem (lines ! i) pSystem \<longrightarrow>
              replaceMountLines lines dev ! i = boost_format Mount ''/system'')
         \<and> (\<not> isSystem (lines ! i) pSystem \<and> isCache (lines ! i) pCache \<longrightarrow>
              replaceMountLines lines dev ! i = boost_format Mount ''/cache'')
         \<and> (\<not> isSystem (lines ! i) pSystem \<and> \<not> isCache (lines ! i) pCache
              \<and> isData (lines ! i) pData \<longrightarrow>
              replaceMountLines lines dev ! i = boost_format Mount ''/data'')
         \<and> (contains (lines ! i) ''system'' \<and> contains (lines ! i) ''data'' \<longrightarrow>
              replaceMountLines lines dev ! i = boost_format Mount ''/system''
              \<and> replaceMountLines lines dev ! i \<noteq> boost_format Mount ''/data''))
       \<and> (isUnmountLine (lines ! i) \<longrightarrow>
           (isSystem (lines ! i) pSystem \<longrightarrow>
              replaceUnmountLines lines dev ! i = boost_format Unmount ''/system'')
         \<and> (\<not> isSystem (lines ! i) pSystem \<and> isCache (lines ! i) pCache \<longrightarrow>
              replaceUnmountLines lines dev ! i = boost_format Unmount ''/cache'')
         \<and> (\<not> isSystem (lines ! i) pSystem \<and> \<not> isCache (lines ! i) pCache
              \<and> isData (lines ! i) pData \<longrightarrow>
              replaceUnmountLines lines dev ! i = boost_format Unmount ''/data'')
         \<and> (contains (lines ! i) ''system'' \<and> contains (lines ! i) ''data'' \<longrightarrow>
              replaceUnmountLines lines dev ! i = boost_format Unmount ''/system''
              \<and> replaceUnmountLines lines dev ! i \<noteq> boost_format Unmount ''/data''))
       \<and> (regex_search (lines ! i) format_re1 \<longrightarrow>
           (isSystem (lines ! i) pSystem \<longrightarrow>
              replaceFormatLines lines dev ! i = boost_format Format ''/system'')
         \<and> (\<not> isSystem (lines ! i) pSystem \<and> isCache (lines ! i) pCache \<longrightarrow>
              replaceFormatLines lines dev ! i = boost_format Format ''/cache'')
         \<and> (\<not> isSystem (lines ! i) pSystem \<and> \<not> isCache (lines ! i) pCache
              \<and> isData (lines ! i) pData \<longrightarrow>
              replaceFormatLines lines dev ! i = boost_format Format ''/data'')
         \<and> (contains (lines ! i) ''system'' \<and> contains (lines ! i) ''data'' \<longrightarrow>
              replaceFormatLines lines dev ! i = boost_format Format ''/system''
              \<and> replaceFormatLines lines dev ! i \<noteq> boost_format Format ''/data''))"
proof -
  have sys: "contains (lines ! i) ''system'' \<Longrightarrow> isSystem (lines ! i) pSystem"
    by (simp add: isSystem_def System_def)
  have m: "isMountLine l \<Longrightarrow> mountLine pSystem pCache pData l =
      (if isSystem l pSystem then boost_format Mount ''/system''
       else if isCache l pCache then boost_format Mount ''/cache''
       else if isData l pData then boost_format Mount ''/data'' else l)" for l
    by (simp add: mountLine_def)
  have u: "isUnmountLine l \<Longrightarrow> unmountLine pSystem pCache pData l =
      (if isSystem l pSystem then boost_format Unmount ''/system''
       else if isCache l pCache then boost_format Unmount ''/cache''
       else if isData l pData then boost_format Unmount ''/data'' else l)" for l
    by (simp add: unmountLine_def)
  have f: "regex_search l format_re1 \<Longrightarrow> formatLine pSystem pCache pData l =
      (if isSystem l pSystem then boost_format Format ''/system''
       else if isCache l pCache then boost_format Format ''/cache''
       else if isData l pData then boost_format Format ''/data'' else l)" for l
    by (simp add: formatLine_def)
  have ne: "boost_format Mount ''/system'' \<noteq> boost_format Mount ''/data''"
    "boost_format Unmount ''/system'' \<noteq> boost_format Unmount ''/data''"
    "boost_format Format ''/system'' \<noteq> boost_format Format ''/data''"
    by (simp_all add: template_lines)
  have "replaceMountLines lines dev ! i = mountLine pSystem pCache pData (lines ! i)"
    "replaceUnmountLines lines dev ! i = unmountLine pSystem pCache pData (lines ! i)"
    "replaceFormatLines lines dev ! i = formatLine pSystem pCache pData (lines ! i)"
    using assms(4) by (simp_all add: pass_map pSystem_def pCache_def pData_def)
  then show ?thesis
    using sys ne by (simp add: m u f)
qed

theorem classification_precedence_witness:
  \<open>replaceMountLines [''mount("ext4", "/dev/block/p9", "/system/data");'',
                      ''  unmount("/data/system");'',
                      ''format("ext4", "/system/userdata");''] unmappedDevice ! 0
     = boost_format Mount ''/system''
   \<and> replaceUnmountLines [''mount("ext4", "/dev/block/p9", "/system/data");'',
                      ''  unmount("/data/system");'',
                      ''format("ext4", "/system/userdata");''] unmappedDevice ! 1
     = boost_format Unmount ''/system''
   \<and> replaceFormatLines [''mount("ext4", "/dev/block/p9", "/system/data");'',
                      ''  unmount("/data/system");'',
                      ''format("ext4", "/system/userdata");''] unmappedDevice ! 2
     = boost_format Format ''/system''\<close>
proof -
  define ls where \<open>ls = [''mount("ext4", "/dev/block/p9", "/system/data");'',
              ''  unmount("/data/system");'',
              ''format("ext4", "/system/userdata");'']\<close>
  have q: "isMountLine (ls ! 0)" "isUnmountLine (ls ! 1)" "regex_search (ls ! 2) format_re1"
    by (simp_all add: ls_def pattern_defs)
  have c: "contains (ls ! 0) ''system''" "contains (ls ! 0) ''data''"
    "contains (ls ! 1) ''system''" "contains (ls ! 1) ''data''"
    "contains (ls ! 2) ''system''" "contains (ls ! 2) ''data''"
    by (simp_all add: ls_def contains_def)
  have l: "0 < length ls" "1 < length ls" "2 < length ls"
    by (simp_all add: ls_def)
  have "replaceMountLines ls unmappedDevice ! 0 = boost_format Mount ''/system''
     \<and> replaceUnmountLines ls unmappedDevice ! 1 = boost_format Unmount ''/system''
     \<and> replaceFormatLines ls unmappedDevice ! 2 = boost_format Format ''/system''"
    using q c classification_precedence [OF l(1), of unmappedDevice]
      classification_precedence [OF l(2), of unmappedDevice]
      classification_precedence [OF l(3), of unmappedDevice]
    by simp
  then show ?thesis
    unfolding ls_def .
qed

text \<open>
  For every line the format pass rewrites the statement fails: the line
  \<open>run_program("/system/data/format.sh");\<close> has both \<open>system\<close> and \<open>data\<close> in it
  and becomes the format helper call for \<open>/data\<close>; the line
  \<open>delete_recursive("/data/system", "/cache");\<close> has both and becomes the call for
  \<open>/cache\<close>.
\<close>

theorem classification_precedence_counterexample:
  \<open>regex_search ''run_program("/system/data/format.sh");'' format_re4
   \<and> contains ''run_program("/system/data/format.sh");'' ''system''
   \<and> contains ''run_program("/system/data/format.sh");'' ''data''
   \<and> replaceFormatLines [''run_program("/system/data/format.sh");''] unmappedDevice
       = [boost_format Format ''/data'']
   \<and> boost_format Format ''/data'' \<noteq> boost_format Format ''/system''
   \<and> regex_search ''delete_recursive("/data/system", "/cache");'' format_re3
   \<and> contains ''delete_recursive("/data/system", "/cache");'' ''system''
   \<and> contains ''delete_recursive("/data/system", "/cache");'' ''data''
   \<and> replaceFormatLines [''delete_recursive("/data/system", "/cache");''] unmappedDevice
       = [boost_format Format ''/cache'']
   \<and> boost_format Format ''/cache'' \<noteq> boost_format Format ''/system''\<close>
proof -
  define L1 where \<open>L1 = ''run_program("/system/data/format.sh");''\<close>
  define L2 where \<open>L2 = ''delete_recursive("/data/system", "/cache");''\<close>
  have q1: "\<not> regex_search L1 format_re1" "\<not> regex_search L1 format_re2"
    "\<not> regex_search L1 format_re3" "regex_search L1 format_re4"
    by (simp_all add: L1_def pattern_defs)
  have q2: "\<not> regex_search L2 format_re1" "\<not> regex_search L2 format_re2"
    "regex_search L2 format_re3"
    by (simp_all add: L2_def pattern_defs)
  have c: "contains L1 ''system''" "contains L1 ''data''"
    "contains L2 ''system''" "contains L2 ''data''"
    by (simp_all add: L1_def L2_def contains_def)
  have "regex_search L1 format_re4 \<and> contains L1 ''system'' \<and> contains L1 ''data''
   \<and> replaceFormatLines [L1] unmappedDevice = [boost_format Format ''/data'']
   \<and> boost_format Format ''/data'' \<noteq> boost_format Format ''/system''
   \<and> regex_search L2 format_re3 \<and> contains L2 ''system'' \<and> contains L2 ''data''
   \<and> replaceFormatLines [L2] unmappedDevice = [boost_format Format ''/cache'']
   \<and> boost_format Format ''/cache'' \<noteq> boost_format Format ''/system''"
    using q1 q2 c by (simp add: pass_map formatLine_def template_lines)
  then show ?thesis
    unfolding L1_def L2_def .
qed

theorem line_count_preserved_witness:
  \<open>length (patchLines (stripInfo unmappedDevice)
            [''mount("ext4", "/dev/block/p9", "/system");'', ''ui_print(1);'']) = 2
   \<and> insert_at (erase [''a'', ''b'', ''c''] 1) 1 ''x'' ! 1 = ''x''
   \<and> insert_at (erase [''a'', ''b'', ''c''] 1) 1 ''x'' ! 2 = ''c''\<close>
proof -
  have "(1::nat) < length [''a'', ''b'', ''c'']" by simp
  then show ?thesis
    using line_count_preserved [of "[''a'', ''b'', ''c'']" unmappedDevice
        "stripInfo unmappedDevice" "[]"]
      line_count_preserved [of \<open>[''mount("ext4", "/dev/block/p9", "/system");'', ''ui_print(1);'']\<close>
        unmappedDevice "stripInfo unmappedDevice" "[]"]
    by simp
qed




text \<open>
  C5. When no line of a text matches any pattern of the four passes, the whole rewrite
  (split, the passes, join) gives the text back unchanged, whatever the device and the
  device-check decision.
\<close>

theorem no_qualifying_line_roundtrip:
  assumes "\<forall>line\<in>set (split contents).
             \<not> isMountLine line \<and> \<not> isUnmountLine line
             \<and> \<not> regex_search line format_re1 \<and> \<not> regex_search line format_re2
             \<and> \<not> regex_search line format_re3 \<and> \<not> regex_search line format_re4
             \<and> \<not> regex_search line reLine"
  shows "patchFiles info contents = contents"
proof -
  have "map (mountLine pS pC pD) (split contents) = split contents" for pS pC pD
    using assms by (intro map_idI) (simp add: mountLine_def)
  moreover have "map (unmountLine pS pC pD) (split contents) = split contents" for pS pC pD
    using assms by (intro map_idI) (simp add: unmountLine_def)
  moreover have "map (formatLine pS pC pD) (split contents) = split contents" for pS pC pD
    using assms by (intro map_idI) (simp add: formatLine_def)
  moreover have "map stripLine (split contents) = split contents"
    using assms by (intro map_idI) (simp add: stripLine_def)
  ultimately have "patchLines info (split contents) = split contents"
    by (simp add: patchLines_def Let_def pass_map removeDeviceChecks_def)
  then show ?thesis
    by (simp add: patchFiles_def join_split)
qed

theorem no_qualifying_line_roundtrip_witness:
  "patchFiles (stripInfo unmappedDevice) (''ui_print(1);'' @ [CHR 0x0A] @ ''set_progress(0.5);'' @ [CHR 0x0A])
   = ''ui_print(1);'' @ [CHR 0x0A] @ ''set_progress(0.5);'' @ [CHR 0x0A]"
proof -
  define script where "script = ''ui_print(1);'' @ [CHR 0x0A] @ ''set_progress(0.5);'' @ [CHR 0x0A]"
  have sp: "split script = [''ui_print(1);'', ''set_progress(0.5);'', []]"
    by (simp add: script_def)
  have "\<forall>line\<in>set (split script).
             \<not> isMountLine line \<and> \<not> isUnmountLine line
             \<and> \<not> regex_search line format_re1 \<and> \<not> regex_search line format_re2
             \<and> \<not> regex_search line format_re3 \<and> \<not> regex_search line format_re4
             \<and> \<not> regex_search line reLine"
    unfolding sp by (simp add: pattern_defs)
  then have "patchFiles (stripInfo unmappedDevice) script = script"
    by (rule no_qualifying_line_roundtrip)
  then show ?thesis
    unfolding script_def .
qed

text \<open>
  C9. \<open>error()\<close> returns the default-constructed \<open>PatcherError\<close>, the value for
  "no error", for every patcher.
\<close>

theorem error_is_no_error:
  "error info = PatcherError_default \<and> error info = NoError"
  by (simp add: error_def PatcherError_default_def)

subsection \<open>Sequences that start with a text or a repetition\<close>





lemma patchLines_eq:
  "patchLines info lines =
     (if deviceCheck (patchInfo info) (keyFromFilename (patchInfo info) (filename info))
      then rewriteStatements lines (device info)
      else removeDeviceChecks (rewriteStatements lines (device info)))"
  by (simp add: patchLines_def rewriteStatements_def Let_def)

lemma patchLines_rewriteStatements:
  "patchLines info lines = rewriteStatements lines (device info)"
  by (simp add: patchLines_eq removeDeviceChecks_id)

lemma assert_line_rewriteStatements:
  \<open>rewriteStatements [''assert(getprop("ro.product.device") == "m7");''] dev
   = [''assert(getprop("ro.product.device") == "m7");'']\<close>
proof -
  define L where \<open>L = ''assert(getprop("ro.product.device") == "m7");''\<close>
  have m: "mountLine pS pC pD L = L" "unmountLine pS pC pD L = L" "formatLine pS pC pD L = L"
    for pS pC pD
    by (simp_all add: mountLine_def unmountLine_def formatLine_def L_def pattern_defs)
  have "rewriteStatements [L] dev = [L]"
    by (simp add: rewriteStatements_def pass_map m)
  then show ?thesis
    unfolding L_def .
qed

text \<open>
  C2. What the code does: \<open>patchFiles\<close> runs the stripping pass exactly when
  \<open>deviceCheck\<close> answers false for the key of the file name, but the pass changes no
  line. Its loop calls \<open>MBP_regex_replace\<close> on a matching line and drops the string the
  call returns, so the lines leave \<open>patchFiles\<close> as the statement rewriters left them
  whatever the answer. The device assertion
  \<open>assert(getprop("ro.product.device") == "m7");\<close> matches the assertion pattern and,
  with the answer false, comes back without the text \<open>"true" == "true" || \<close> after
  \<open>assert(\<close>.
\<close>

theorem device_check_removal_dropped:
  \<open>removeDeviceChecks lines = lines
   \<and> patchLines info lines = rewriteStatements lines (device info)
   \<and> regex_search ''assert(getprop("ro.product.device") == "m7");'' reLine
   \<and> \<not> deviceCheck (patchInfo (stripInfo unmappedDevice))
         (keyFromFilename (patchInfo (stripInfo unmappedDevice))
            (filename (stripInfo unmappedDevice)))
   \<and> patchFiles (stripInfo unmappedDevice) ''assert(getprop("ro.product.device") == "m7");''
       = ''assert(getprop("ro.product.device") == "m7");''
   \<and> patchFiles (stripInfo unmappedDevice) ''assert(getprop("ro.product.device") == "m7");''
       \<noteq> ''assert("true" == "true" || getprop("ro.product.device") == "m7");''\<close>
proof -
  define L where \<open>L = ''assert(getprop("ro.product.device") == "m7");''\<close>
  have q: "regex_search L reLine"
    by (simp add: L_def pattern_defs)
  have c: "\<not> deviceCheck (patchInfo (stripInfo unmappedDevice))
         (keyFromFilename (patchInfo (stripInfo unmappedDevice))
            (filename (stripInfo unmappedDevice)))"
    by (simp add: sample_defs)
  have "CHR 0x0A \<notin> set L"
    by (simp add: L_def)
  then have "split L = [L]"
    by (rule split_no_newline)
  moreover have "rewriteStatements [L] dev = [L]" for dev
    unfolding L_def by (rule assert_line_rewriteStatements)
  ultimately have f: "patchFiles (stripInfo unmappedDevice) L = L"
    by (simp add: patchFiles_def patchLines_rewriteStatements)
  have n: \<open>L \<noteq> ''assert("true" == "true" || getprop("ro.product.device") == "m7");''\<close>
    by (simp add: L_def)
  have f': \<open>patchFiles (stripInfo unmappedDevice) L
       \<noteq> ''assert("true" == "true" || getprop("ro.product.device") == "m7");''\<close>
    unfolding f by (rule n)
  show ?thesis
    unfolding L_def [symmetric]
    by (intro conjI removeDeviceChecks_id patchLines_rewriteStatements q c f f')
qed

text \<open>
  C6. What the code does: since the stripping pass drops the replacement and changes no
  line, a second run gives what the first gave. The line
  \<open>  assert (getprop ("ro.build.product") == "m7");\<close> matches the assertion pattern and is
  the same after one run and after two; no disjunct is inserted, neither once nor twice.
\<close>

theorem strip_twice_as_once:
  \<open>removeDeviceChecks (removeDeviceChecks lines) = removeDeviceChecks lines
   \<and> regex_search ''  assert (getprop ("ro.build.product") == "m7");'' reLine
   \<and> removeDeviceChecks [''  assert (getprop ("ro.build.product") == "m7");'']
       = [''  assert (getprop ("ro.build.product") == "m7");'']
   \<and> removeDeviceChecks
         (removeDeviceChecks [''  assert (getprop ("ro.build.product") == "m7");''])
       = [''  assert (getprop ("ro.build.product") == "m7");'']\<close>
proof -
  define L where \<open>L = ''  assert (getprop ("ro.build.product") == "m7");''\<close>
  have q: "regex_search L reLine"
    by (simp add: L_def pattern_defs)
  have 1: "removeDeviceChecks (removeDeviceChecks lines) = removeDeviceChecks lines"
    by (simp only: removeDeviceChecks_id)
  have 2: "removeDeviceChecks [L] = [L]"
    by (rule removeDeviceChecks_id)
  have 3: "removeDeviceChecks (removeDeviceChecks [L]) = [L]"
    by (simp only: removeDeviceChecks_id)
  show ?thesis
    unfolding L_def [symmetric] by (intro conjI 1 q 2 3)
qed

subsection \<open>The format patterns\<close>









subsection \<open>The replacement lines match no pattern\<close>

lemma replacementLines_no_pattern:
  "\<forall>t\<in>set replacementLines.
     \<not> isMountLine t \<and> \<not> isUnmountLine t
     \<and> \<not> regex_search t format_re1 \<and> \<not> regex_search t format_re2
     \<and> \<not> regex_search t format_re3 \<and> \<not> regex_search t format_re4
     \<and> \<not> regex_search t reLine"
  by (simp add: replacementLines_def template_lines pattern_defs)

lemma replacementLines_fixed:
  assumes "t \<in> set replacementLines"
  shows "mountLine pS pC pD t = t" "unmountLine pS pC pD t = t" "formatLine pS pC pD t = t"
    "stripLine t = t"
  using replacementLines_no_pattern assms
  by (simp_all add: mountLine_def unmountLine_def formatLine_def stripLine_def)

lemma mountLine_cases: "mountLine pS pC pD l = l \<or> mountLine pS pC pD l \<in> set replacementLines"
  by (simp add: mountLine_def replacementLines_def)

lemma unmountLine_cases:
  "unmountLine pS pC pD l = l \<or> unmountLine pS pC pD l \<in> set replacementLines"
  by (simp add: unmountLine_def replacementLines_def)

lemma formatLine_cases:
  "formatLine pS pC pD l = l \<or> formatLine pS pC pD l \<in> set replacementLines"
  by (simp add: formatLine_def replacementLines_def)

lemma rewrite_line_cases:
  fixes pS pC pD l
  defines "x \<equiv> formatLine pS pC pD (unmountLine pS pC pD (mountLine pS pC pD l))"
  shows "x \<in> set replacementLines
         \<or> (x = l \<and> mountLine pS pC pD l = l \<and> unmountLine pS pC pD l = l
             \<and> formatLine pS pC pD l = l)"
proof (cases "mountLine pS pC pD l \<in> set replacementLines")
  case True
  then show ?thesis
    unfolding x_def by (simp add: replacementLines_fixed)
next
  case False
  then have m: "mountLine pS pC pD l = l"
    using mountLine_cases [of pS pC pD l] by simp
  show ?thesis
  proof (cases "unmountLine pS pC pD l \<in> set replacementLines")
    case True
    then show ?thesis
      unfolding x_def m by (simp add: replacementLines_fixed)
  next
    case False
    then have u: "unmountLine pS pC pD l = l"
      using unmountLine_cases [of pS pC pD l] by simp
    show ?thesis
      unfolding x_def m u using formatLine_cases [of pS pC pD l] m u by auto
  qed
qed

lemma rewrite_line_idem:
  fixes pS pC pD l
  defines "x \<equiv> formatLine pS pC pD (unmountLine pS pC pD (mountLine pS pC pD l))"
  shows "formatLine pS pC pD (unmountLine pS pC pD (mountLine pS pC pD x)) = x"
  using rewrite_line_cases [of pS pC pD l] unfolding x_def [symmetric]
  by (auto simp: replacementLines_fixed)

text \<open>
  C10. None of the nine replacement lines matches a pattern of the mount, unmount or
  format pass, and a line these passes change becomes one of the nine. So each of the
  three passes, and the three in a row, leave an already rewritten script as it is.
\<close>

theorem statement_rewriters_idempotent:
  "(\<forall>t\<in>set replacementLines.
      \<not> isMountLine t \<and> \<not> isUnmountLine t
      \<and> \<not> regex_search t format_re1 \<and> \<not> regex_search t format_re2
      \<and> \<not> regex_search t format_re3 \<and> \<not> regex_search t format_re4)
   \<and> (\<forall>i<length lines.
        rewriteStatements lines dev ! i = lines ! i
        \<or> rewriteStatements lines dev ! i \<in> set replacementLines)
   \<and> rewriteStatements (rewriteStatements lines dev) dev = rewriteStatements lines dev
   \<and> replaceMountLines (replaceMountLines lines dev) dev = replaceMountLines lines dev
   \<and> replaceUnmountLines (replaceUnmountLines lines dev) dev = replaceUnmountLines lines dev
   \<and> replaceFormatLines (replaceFormatLines lines dev) dev = replaceFormatLines lines dev"
proof -
  let ?m = "mountLine (partition_dev dev System) (partition_dev dev Cache) (partition_dev dev Data)"
  let ?u = "unmountLine (partition_dev dev System) (partition_dev dev Cache) (partition_dev dev Data)"
  let ?f = "formatLine (partition_dev dev System) (partition_dev dev Cache) (partition_dev dev Data)"
  have r: "rewriteStatements ls dev = map (\<lambda>l. ?f (?u (?m l))) ls" for ls
    by (simp add: rewriteStatements_def pass_map)
  have 1: "\<forall>t\<in>set replacementLines.
      \<not> isMountLine t \<and> \<not> isUnmountLine t
      \<and> \<not> regex_search t format_re1 \<and> \<not> regex_search t format_re2
      \<and> \<not> regex_search t format_re3 \<and> \<not> regex_search t format_re4"
    using replacementLines_no_pattern by blast
  have 2: "\<forall>i<length lines.
        rewriteStatements lines dev ! i = lines ! i
        \<or> rewriteStatements lines dev ! i \<in> set replacementLines"
    unfolding r using rewrite_line_cases by auto
  have 3: "rewriteStatements (rewriteStatements lines dev) dev = rewriteStatements lines dev"
    unfolding r by (simp add: rewrite_line_idem)
  have mm: "?m (?m l) = ?m l" for l
    using mountLine_cases [of "partition_dev dev System" "partition_dev dev Cache"
        "partition_dev dev Data" l]
    by (auto simp: replacementLines_fixed)
  have uu: "?u (?u l) = ?u l" for l
    using unmountLine_cases [of "partition_dev dev System" "partition_dev dev Cache"
        "partition_dev dev Data" l]
    by (auto simp: replacementLines_fixed)
  have ff: "?f (?f l) = ?f l" for l
    using formatLine_cases [of "partition_dev dev System" "partition_dev dev Cache"
        "partition_dev dev Data" l]
    by (auto simp: replacementLines_fixed)
  have 4: "replaceMountLines (replaceMountLines lines dev) dev = replaceMountLines lines dev"
    "replaceUnmountLines (replaceUnmountLines lines dev) dev = replaceUnmountLines lines dev"
    "replaceFormatLines (replaceFormatLines lines dev) dev = replaceFormatLines lines dev"
    by (simp_all add: pass_map mm uu ff)
  show ?thesis
    using 1 2 3 4 by (intro conjI)
qed

theorem statement_rewriters_idempotent_witness:
  \<open>rewriteStatements (rewriteStatements [''mount("ext4", "/dev/block/p9", "/system");'']
       unmappedDevice) unmappedDevice
   = rewriteStatements [''mount("ext4", "/dev/block/p9", "/system");''] unmappedDevice
   \<and> rewriteStatements [''mount("ext4", "/dev/block/p9", "/system");''] unmappedDevice ! 0
     = boost_format Mount ''/system''
   \<and> \<not> isMountLine (boost_format Mount ''/system'')\<close>
proof -
  define L where \<open>L = ''mount("ext4", "/dev/block/p9", "/system");''\<close>
  have q: "isMountLine L"
    by (simp add: L_def pattern_defs)
  have c: "contains L System"
    by (simp add: L_def contains_def System_def)
  have t: "boost_format Mount ''/system'' \<in> set replacementLines"
    by (simp add: replacementLines_def)
  have m: "mountLine pS pC pD L = boost_format Mount ''/system''" for pS pC pD
    using q c by (simp add: mountLine_def isSystem_def)
  have r: "rewriteStatements [L] unmappedDevice = [boost_format Mount ''/system'']"
    by (simp add: rewriteStatements_def pass_map m replacementLines_fixed [OF t])
  note T = statement_rewriters_idempotent [of "[L]" unmappedDevice]
  have 1: "\<not> isMountLine (boost_format Mount ''/system'')"
    using T [THEN conjunct1, rule_format, OF t] by (rule conjunct1)
  have 2: "rewriteStatements (rewriteStatements [L] unmappedDevice) unmappedDevice
           = rewriteStatements [L] unmappedDevice"
    using T [THEN conjunct2, THEN conjunct2] by (rule conjunct1)
  have 3: "rewriteStatements [L] unmappedDevice ! 0 = boost_format Mount ''/system''"
    unfolding r by simp
  show ?thesis
    using 2 3 1 unfolding L_def by (intro conjI)
qed

subsection \<open>The unmount example\<close>

lemma busyboxUmountCache_facts:
  "\<not> isMountLine busyboxUmountCache" "isUnmountLine busyboxUmountCache"
  "\<not> contains busyboxUmountCache System" "contains busyboxUmountCache Cache"
  "CHR 0x0A \<notin> set busyboxUmountCache"
  by (simp_all add: busyboxUmountCache_def pattern_defs contains_def System_def Cache_def)

text \<open>
  C7, as the code has it. On a device whose System path is empty or does not occur in the
  line, the line \<open>run_program("/sbin/busybox", "umount", "/cache");\<close> passes the mount
  pass unchanged, the unmount pass replaces it by the unmount helper call for \<open>/cache\<close>,
  and that call is what the whole rewrite leaves in its place.
\<close>

theorem busybox_umount_cache:
  fixes info :: FileInfo and lines :: "string list"
  assumes "i < length lines" and "lines ! i = busyboxUmountCache"
    and "partition_dev (device info) System = []
         \<or> \<not> contains busyboxUmountCache (partition_dev (device info) System)"
  shows \<open>replaceMountLines lines (device info) ! i = busyboxUmountCache
       \<and> replaceUnmountLines (replaceMountLines lines (device info)) (device info) ! i
           = boost_format Unmount ''/cache''
       \<and> patchLines info lines ! i = boost_format Unmount ''/cache''
       \<and> patchFiles info busyboxUmountCache = boost_format Unmount ''/cache''
       \<and> boost_format Unmount ''/cache''
           = ''run_program("/update-binary-tool", "unmount", "/cache"};''\<close>
proof -
  let ?pS = "partition_dev (device info) System"
  let ?pC = "partition_dev (device info) Cache"
  let ?pD = "partition_dev (device info) Data"
  have t: "boost_format Unmount ''/cache'' \<in> set replacementLines"
    by (simp add: replacementLines_def)
  have m: "mountLine ?pS ?pC ?pD busyboxUmountCache = busyboxUmountCache"
    using busyboxUmountCache_facts(1) by (simp add: mountLine_def)
  have "\<not> isSystem busyboxUmountCache ?pS"
    using assms(3) busyboxUmountCache_facts(3) by (auto simp: isSystem_def)
  moreover have "isCache busyboxUmountCache ?pC"
    using busyboxUmountCache_facts(4) by (simp add: isCache_def)
  ultimately have u: "unmountLine ?pS ?pC ?pD busyboxUmountCache = boost_format Unmount ''/cache''"
    using busyboxUmountCache_facts(2) by (simp add: unmountLine_def)
  have p: "patchLines info ls ! j = boost_format Unmount ''/cache''"
    if "j < length ls" and "ls ! j = busyboxUmountCache" for ls j
    using that
    by (simp add: patchLines_def Let_def pass_map removeDeviceChecks_def m u
        replacementLines_fixed [OF t])
  have "split busyboxUmountCache = [busyboxUmountCache]"
    using busyboxUmountCache_facts(5) by (rule split_no_newline)
  then have "patchFiles info busyboxUmountCache = join [patchLines info [busyboxUmountCache] ! 0]"
    using length_patchLines [of info "[busyboxUmountCache]"]
    by (cases "patchLines info [busyboxUmountCache]") (simp_all add: patchFiles_def)
  then have f: "patchFiles info busyboxUmountCache = boost_format Unmount ''/cache''"
    by (simp add: p)
  show ?thesis
    using assms(1,2) f by (simp add: pass_map m u p) (simp add: template_lines)
qed

theorem busybox_umount_cache_witness:
  \<open>patchLines (stripInfo unmappedDevice)
      [''ui_print(1);'', ''run_program("/sbin/busybox", "umount", "/cache");''] ! 1
   = ''run_program("/update-binary-tool", "unmount", "/cache"};''
   \<and> patchFiles (stripInfo unmappedDevice) ''run_program("/sbin/busybox", "umount", "/cache");''
   = ''run_program("/update-binary-tool", "unmount", "/cache"};''\<close>
proof -
  define ls where "ls = [''ui_print(1);'', busyboxUmountCache]"
  have 1: "1 < length ls" and 2: "ls ! 1 = busyboxUmountCache"
    by (simp_all add: ls_def)
  have 3: "partition_dev (device (stripInfo unmappedDevice)) System = []
         \<or> \<not> contains busyboxUmountCache (partition_dev (device (stripInfo unmappedDevice)) System)"
    by (simp add: sample_defs)
  have \<open>patchLines (stripInfo unmappedDevice) ls ! 1
          = ''run_program("/update-binary-tool", "unmount", "/cache"};''
      \<and> patchFiles (stripInfo unmappedDevice) busyboxUmountCache
          = ''run_program("/update-binary-tool", "unmount", "/cache"};''\<close>
    using busybox_umount_cache [OF 1 2 3] by simp
  then show ?thesis
    unfolding ls_def busyboxUmountCache_def .
qed

text \<open>
  Without the condition on the device the statement fails: with
  the System path \<open>/sbin\<close> the unmount pass replaces the line by the unmount helper call
  for \<open>/system\<close>.
\<close>

theorem busybox_umount_cache_counterexample:
  \<open>replaceUnmountLines
      (replaceMountLines [''run_program("/sbin/busybox", "umount", "/cache");''] sbinDevice)
      sbinDevice
   = [''run_program("/update-binary-tool", "unmount", "/system"};'']
   \<and> ''run_program("/update-binary-tool", "unmount", "/system"};''
     \<noteq> boost_format Unmount ''/cache''\<close>
proof -
  have "isSystem busyboxUmountCache (partition_dev sbinDevice System)"
    by (simp add: busyboxUmountCache_def classifier_defs sample_defs)
  then have \<open>replaceUnmountLines (replaceMountLines [busyboxUmountCache] sbinDevice) sbinDevice
             = [''run_program("/update-binary-tool", "unmount", "/system"};'']\<close>
    using busyboxUmountCache_facts(1,2)
    by (simp add: pass_map mountLine_def unmountLine_def template_lines)
  then show ?thesis
    unfolding busyboxUmountCache_def by (simp add: template_lines)
qed

end
